theory Spec2Isabelle
  imports Complex_Main "HOL-Library.Word"
begin

section \<open>MichiStrobe: audio feature extraction and canvas rendering\<close>

text \<open>
  The development embeds two TypeScript units: the hook \<^verbatim>\<open>useAudioAnalyzer\<close>
  (microphone capture, per-frame feature extraction) and the component
  \<^verbatim>\<open>Visualizer\<close> with the signal-strength indicator of \<^verbatim>\<open>App\<close>.

  Numbers. A JavaScript number is modelled as a \<^typ>\<open>real\<close>: every value is finite and
  every operation exact. The loop of \<^verbatim>\<open>update\<close> only adds bytes, so its accumulators
  are integers far below \<open>2^53\<close> and are exact in the source as well; the comparisons
  \<^verbatim>\<open>i < data.length * 0.15\<close> and \<^verbatim>\<open>i < data.length * 0.5\<close> between an index and a
  product are the exact comparisons. Rounding enters only in the final divisions, and
  \<open>NaN\<close> only for an empty buffer (\<open>0 / 0\<close>), which HOL evaluates to \<open>0\<close>: statements
  about the quotients are therefore made for a non-empty buffer.
  An element of a \<^verbatim>\<open>Uint8Array\<close> is a \<^typ>\<open>8 word\<close>, read with \<^const>\<open>unat\<close>.
\<close>

subsection \<open>The snapshot\<close>

type_synonym byte = "8 word"

record AudioData =
  volume :: real
  bass :: real
  mid :: real
  treble :: real
  frequencyData :: "byte list"
  timeData :: "byte list"

subsection \<open>The reduction loop of \<^verbatim>\<open>update\<close>\<close>

text \<open>
  The accumulators \<^verbatim>\<open>volume\<close>, \<^verbatim>\<open>bass\<close>, \<^verbatim>\<open>mid\<close>, \<^verbatim>\<open>treble\<close> are the four components
  of a tuple, in this order. One iteration of the body at index \<open>i\<close>:
\<close>

definition update_step ::
  "byte list \<Rightarrow> nat \<Rightarrow> real \<times> real \<times> real \<times> real \<Rightarrow> real \<times> real \<times> real \<times> real" where
  "update_step data i s =
     (case s of (v, b, m, t) \<Rightarrow>
        let d = real (unat (data ! i));
            v' = v + d
        in if real i < real (length data) * 0.15 then
             (if d > b then (v', d, m, t) else (v', b, m, t))
           else if real i < real (length data) * 0.5 then (v', b, m + d, t)
           else (v', b, m, t + d))"

function update_loop ::
  "byte list \<Rightarrow> nat \<Rightarrow> real \<times> real \<times> real \<times> real \<Rightarrow> real \<times> real \<times> real \<times> real" where
  "update_loop data i s =
     (if i < length data then update_loop data (Suc i) (update_step data i s) else s)"
  by pat_completeness auto
termination
  by (relation "measure (\<lambda>(data, i, s). length data - i)") auto

declare update_loop.simps [simp del]

text \<open>The object handed to \<^verbatim>\<open>setAudioData\<close>; both arrays are copied.\<close>

definition snapshot_of :: "byte list \<Rightarrow> byte list \<Rightarrow> AudioData" where
  "snapshot_of data tdata =
     (case update_loop data 0 (0, 0, 0, 0) of (v, b, m, t) \<Rightarrow>
        let count = real (length data)
        in \<lparr> volume = v / count / 255,
             bass = b / 255,
             mid = m / (count * 0.35) / 255,
             treble = t / (count * 0.5) / 255,
             frequencyData = data,
             timeData = tdata \<rparr>)"

subsection \<open>Index ranges of the three bands\<close>

text \<open>
  \<open>bassEnd N\<close> is the number of indices \<open>i\<close> with \<open>i < 0.15 * N\<close>, that is
  \<open>\<lceil>0.15 * N\<rceil>\<close>; \<open>midEnd N\<close> is the number of indices with \<open>i < 0.5 * N\<close>.
\<close>

definition bassEnd :: "nat \<Rightarrow> nat" where
  "bassEnd N = (3 * N + 19) div 20"

definition midEnd :: "nat \<Rightarrow> nat" where
  "midEnd N = (N + 1) div 2"

definition bass_slice :: "byte list \<Rightarrow> byte list" where
  "bass_slice data = take (bassEnd (length data)) data"

definition mid_slice :: "byte list \<Rightarrow> byte list" where
  "mid_slice data =
     take (midEnd (length data) - bassEnd (length data)) (drop (bassEnd (length data)) data)"

definition treble_slice :: "byte list \<Rightarrow> byte list" where
  "treble_slice data = drop (midEnd (length data)) data"

text \<open>The peak of a list of bytes, starting from the accumulator's initial \<open>0\<close>.\<close>

definition bin_peak :: "byte list \<Rightarrow> nat" where
  "bin_peak bs = fold max (map unat bs) 0"

definition bin_sum :: "byte list \<Rightarrow> nat" where
  "bin_sum bs = sum_list (map unat bs)"

text \<open>
  The formula of the specification for \<open>bass\<close>: the peak over the indices
  \<open>0 .. \<lfloor>0.15 * N\<rfloor> - 1\<close>.
\<close>

definition bass_floor_formula :: "byte list \<Rightarrow> real" where
  "bass_floor_formula data =
     real (bin_peak (take (nat \<lfloor>0.15 * real (length data)\<rfloor>) data)) / 255"

subsection \<open>The capture session of \<^verbatim>\<open>useAudioAnalyzer\<close>\<close>

text \<open>
  The hook keeps one React state (\<^verbatim>\<open>audioData\<close>) and six refs. An object held by a ref
  is modelled by what the hook reads from it: an \<^verbatim>\<open>AudioContext\<close> by its \<^verbatim>\<open>state\<close>,
  an \<^verbatim>\<open>AnalyserNode\<close> by its \<^verbatim>\<open>fftSize\<close>, a source node by the ids of the tracks
  of its media stream, an animation-frame handle by its number. \<open>None\<close> is \<^verbatim>\<open>null\<close>.
  The calls the hook makes on the platform are appended to \<open>calls\<close>.
\<close>

datatype context_state = Suspended | Running | Closed

datatype media_error = PermissionDenied | DeviceUnavailable

datatype platform_call =
    RequestAnimationFrame nat
  | CancelAnimationFrame nat
  | CloseContext
  | StopTrack nat
  | ConsoleError media_error

record hook =
  audioData :: "AudioData option"
  audioContextRef :: "context_state option"
  analyzerRef :: "nat option"
  dataArrayRef :: "byte list option"
  timeArrayRef :: "byte list option"
  sourceRef :: "nat list option"
  animationFrameRef :: "nat option"
  calls :: "platform_call list"

text \<open>The state of the hook before any activation.\<close>

definition initial_hook :: hook where
  "initial_hook =
     \<lparr> audioData = None, audioContextRef = None, analyzerRef = None, dataArrayRef = None,
       timeArrayRef = None, sourceRef = None, animationFrameRef = None, calls = [] \<rparr>"

text \<open>
  What the platform supplies to one run of \<^verbatim>\<open>update\<close>: the byte the analyser writes at
  each index of the frequency and of the time-domain array, and the handle that
  \<^verbatim>\<open>requestAnimationFrame\<close> returns.
\<close>

record tick_env =
  freqSample :: "nat \<Rightarrow> byte"
  timeSample :: "nat \<Rightarrow> byte"
  frameId :: nat

text \<open>
  \<^verbatim>\<open>getByteFrequencyData\<close> overwrites the first \<^verbatim>\<open>frequencyBinCount = fftSize / 2\<close>
  elements of the array, \<^verbatim>\<open>getByteTimeDomainData\<close> the first \<^verbatim>\<open>fftSize\<close>; elements
  beyond that count keep their value.
\<close>

definition fill_array :: "nat \<Rightarrow> (nat \<Rightarrow> byte) \<Rightarrow> byte list \<Rightarrow> byte list" where
  "fill_array count sample arr =
     map (\<lambda>i. if i < count then sample i else arr ! i) [0..<length arr]"

definition update :: "tick_env \<Rightarrow> hook \<Rightarrow> hook" where
  "update env h =
     (case analyzerRef h of
        None \<Rightarrow> h
      | Some fftSize \<Rightarrow>
          (case dataArrayRef h of
             None \<Rightarrow> h
           | Some darr \<Rightarrow>
               (case timeArrayRef h of
                  None \<Rightarrow> h
                | Some tarr \<Rightarrow>
                    let data = fill_array (fftSize div 2) (freqSample env) darr;
                        tdata = fill_array fftSize (timeSample env) tarr
                    in h\<lparr> dataArrayRef := Some data,
                          timeArrayRef := Some tdata,
                          audioData := Some (snapshot_of data tdata),
                          animationFrameRef := Some (frameId env),
                          calls := calls h @ [RequestAnimationFrame (frameId env)] \<rparr>)))"

text \<open>
  What the platform supplies to \<^verbatim>\<open>start\<close>: the outcome of \<^verbatim>\<open>getUserMedia\<close> (a rejection,
  or a stream given by the ids of its tracks) and the state of the new audio context.
  The calls after a granted stream are taken to succeed.
\<close>

record start_env =
  getUserMedia :: "media_error + nat list"
  contextState :: context_state

text \<open>The body of the \<^verbatim>\<open>try\<close> block: \<open>Inl\<close> is the exception thrown in it.\<close>

definition start_try :: "start_env \<Rightarrow> tick_env \<Rightarrow> hook \<Rightarrow> media_error + hook" where
  "start_try se te h =
     (case getUserMedia se of
        Inl err \<Rightarrow> Inl err
      | Inr tracks \<Rightarrow>
          let fftSize = 256
          in Inr (update te
               (h\<lparr> audioContextRef := Some (contextState se),
                    analyzerRef := Some fftSize,
                    sourceRef := Some tracks,
                    dataArrayRef := Some (replicate (fftSize div 2) 0),
                    timeArrayRef := Some (replicate (fftSize div 2) 0) \<rparr>)))"

text \<open>
  \<^verbatim>\<open>start\<close>, run to completion with the outcome of the permission request known.
  \<open>Inl\<close> would be an exception escaping the call; \<open>Inr\<close> is a normal return.
\<close>

definition start :: "start_env \<Rightarrow> tick_env \<Rightarrow> hook \<Rightarrow> media_error + hook" where
  "start se te h =
     (if audioContextRef h \<noteq> None then Inr h
      else case start_try se te h of
             Inl err \<Rightarrow> Inr (h\<lparr> calls := calls h @ [ConsoleError err] \<rparr>)
           | Inr h' \<Rightarrow> Inr h')"

text \<open>
  \<^verbatim>\<open>stop\<close>. A handle is cancelled when it is truthy, that is, when it is not \<open>0\<close>.
  A rejection of \<^verbatim>\<open>close()\<close> goes to the promise's \<^verbatim>\<open>catch\<close> handler, which logs it.
\<close>

definition stop :: "hook \<Rightarrow> hook" where
  "stop h =
     (let h1 = (case animationFrameRef h of
                  None \<Rightarrow> h
                | Some fid \<Rightarrow>
                    if fid \<noteq> 0
                    then h\<lparr> animationFrameRef := None,
                            calls := calls h @ [CancelAnimationFrame fid] \<rparr>
                    else h);
          h2 = (case audioContextRef h1 of
                  None \<Rightarrow> h1
                | Some st \<Rightarrow>
                    (if st \<noteq> Closed then h1\<lparr> calls := calls h1 @ [CloseContext] \<rparr> else h1)
                      \<lparr> audioContextRef := None \<rparr>);
          h3 = (case sourceRef h2 of
                  None \<Rightarrow> h2
                | Some tracks \<Rightarrow>
                    h2\<lparr> sourceRef := None, calls := calls h2 @ map StopTrack tracks \<rparr>)
      in h3\<lparr> analyzerRef := None, dataArrayRef := None, timeArrayRef := None,
              audioData := None \<rparr>)"

text \<open>The hook after a list of later runs of \<^verbatim>\<open>update\<close>, oldest first.\<close>

definition ticks :: "tick_env list \<Rightarrow> hook \<Rightarrow> hook" where
  "ticks envs h = fold update envs h"

text \<open>No session: nothing published and every ref \<^verbatim>\<open>null\<close>.\<close>

definition no_session :: "hook \<Rightarrow> bool" where
  "no_session h \<longleftrightarrow>
     audioData h = None \<and> audioContextRef h = None \<and> analyzerRef h = None \<and>
     dataArrayRef h = None \<and> timeArrayRef h = None \<and> sourceRef h = None \<and>
     animationFrameRef h = None"

subsection \<open>The signal-strength indicator of \<^verbatim>\<open>App\<close>\<close>

text \<open>
  The five segments are rendered when \<^verbatim>\<open>isActive && audioData\<close>; segment \<open>i\<close> is lit
  when \<^verbatim>\<open>audioData.volume * 5 > i\<close>.
\<close>

definition signal_strength :: "bool \<Rightarrow> AudioData option \<Rightarrow> bool list option" where
  "signal_strength isActive a =
     (if isActive then
        (case a of
           None \<Rightarrow> None
         | Some d \<Rightarrow> Some (map (\<lambda>i. volume d * 5 > real i) [0..<5]))
      else None)"

text \<open>The rule of the specification: segment \<open>i\<close> is lit when \<open>\<lfloor>volume * 5\<rfloor> > i\<close>.\<close>

definition segment_floor_rule :: "real \<Rightarrow> nat \<Rightarrow> bool" where
  "segment_floor_rule v i \<longleftrightarrow> \<lfloor>v * 5\<rfloor> > int i"

subsection \<open>The drawing surface\<close>

datatype Mode = ModePure | ModeCubic | ModeWaves

record Canvas =
  canvas_width :: nat
  canvas_height :: nat

text \<open>
  A style value: a literal, or one of the templates with its numbers. \<open>Unparsed\<close> is a
  template whose hue slot holds \<^verbatim>\<open>undefined\<close>.
\<close>

datatype css_color =
    Hex string
  | Rgba real real real real
  | Hsl real real real
  | Hsla real real real real
  | Unparsed string

datatype canvas_op =
    FillStyle css_color
  | StrokeStyle css_color
  | ShadowColor css_color
  | ShadowBlur real
  | LineWidth real
  | LineCap string
  | FillRect real real real real
  | StrokeRect real real real real
  | BeginPath
  | MoveTo real real
  | LineTo real real
  | Arc real real real real real
  | Stroke
  | Save
  | Restore
  | Translate real real
  | Rotate real

record Particle =
  p_x :: real
  p_y :: real
  p_size :: real
  p_vx :: real
  p_vy :: real
  p_color :: css_color
  p_rotation :: real
  p_rv :: real

text \<open>
  The remainder operator \<^verbatim>\<open>%\<close> of JavaScript on numbers: the quotient is truncated
  towards zero.
\<close>

definition js_rem :: "real \<Rightarrow> real \<Rightarrow> real" where
  "js_rem a n = a - n * of_int (if a / n < 0 then \<lceil>a / n\<rceil> else \<lfloor>a / n\<rfloor>)"

definition modernHues :: "nat list" where
  "modernHues = [260, 180, 320, 20, 200]"

subsection \<open>Particles of mode \<^verbatim>\<open>cubic\<close>\<close>

text \<open>
  \<^verbatim>\<open>Math.random()\<close> is a sequence \<open>rnd\<close> of draws; the callback of \<^verbatim>\<open>Array.from\<close>
  makes eight draws, in the order hue, x, y, size, vx, vy, rotation, rv, so particle \<open>k\<close>
  takes the draws \<open>8 * k .. 8 * k + 7\<close>.
\<close>

definition hue_color :: "(nat \<Rightarrow> real) \<Rightarrow> nat \<Rightarrow> css_color" where
  "hue_color rnd k =
     (let idx = \<lfloor>rnd k * real (length modernHues)\<rfloor>
      in if 0 \<le> idx \<and> idx < int (length modernHues)
         then Hsl (real (modernHues ! nat idx)) 90 60
         else Unparsed ''hsl(undefined, 90%, 60%)'')"

definition new_particle :: "Canvas \<Rightarrow> (nat \<Rightarrow> real) \<Rightarrow> nat \<Rightarrow> Particle" where
  "new_particle c rnd k =
     \<lparr> p_x = rnd (8 * k + 1) * real (canvas_width c),
       p_y = rnd (8 * k + 2) * real (canvas_height c),
       p_size = rnd (8 * k + 3) * 35 + 15,
       p_vx = (rnd (8 * k + 4) - 0.5) * 6,
       p_vy = (rnd (8 * k + 5) - 0.5) * 6,
       p_color = hue_color rnd (8 * k),
       p_rotation = rnd (8 * k + 6) * pi * 2,
       p_rv = (rnd (8 * k + 7) - 0.5) * 0.15 \<rparr>"

definition init_particles ::
  "Canvas \<Rightarrow> Mode \<Rightarrow> (nat \<Rightarrow> real) \<Rightarrow> Particle list \<Rightarrow> Particle list" where
  "init_particles c mode rnd ps =
     (if mode = ModeCubic \<and> length ps = 0 then map (new_particle c rnd) [0..<45] else ps)"

text \<open>
  The body of \<^verbatim>\<open>forEach\<close> in mode \<^verbatim>\<open>cubic\<close> on one particle: the particle after the
  body and the operations it draws. \<open>b\<close>, \<open>m\<close>, \<open>t\<close> are the scaled bass, mid and treble.
\<close>

definition cubic_particle ::
  "Canvas \<Rightarrow> real \<Rightarrow> real \<Rightarrow> real \<Rightarrow> Particle \<Rightarrow> Particle \<times> canvas_op list" where
  "cubic_particle c b m t p =
     (let scale = 1 + b * 1.5;
          p1 = p\<lparr> p_x := p_x p + p_vx p * (1 + b * 8) \<rparr>;
          p2 = p1\<lparr> p_y := p_y p1 + p_vy p1 * (1 + b * 8) \<rparr>;
          p3 = p2\<lparr> p_rotation := p_rotation p2 + p_rv p2 * (1 + t * 5) \<rparr>;
          p4 = (if p_x p3 < 0 \<or> p_x p3 > real (canvas_width c)
                then p3\<lparr> p_vx := p_vx p3 * (- 1) \<rparr> else p3);
          p5 = (if p_y p4 < 0 \<or> p_y p4 > real (canvas_height c)
                then p4\<lparr> p_vy := p_vy p4 * (- 1) \<rparr> else p4);
          hueShift = m * 100;
          s = p_size p5 * scale
      in (p5,
          [Save,
           Translate (p_x p5) (p_y p5),
           Rotate (p_rotation p5),
           FillStyle (p_color p5),
           ShadowBlur (20 * b),
           ShadowColor (p_color p5),
           FillRect (- s / 2) (- s / 2) s s,
           StrokeStyle (Rgba 255 255 255 (0.3 + b * 0.7)),
           LineWidth 2,
           StrokeRect (- s / 2) (- s / 2) s s,
           FillStyle (Rgba 255 255 255 0.1),
           FillRect (- s / 4) (- s / 4) (s / 2) (s / 2),
           Restore]))"

subsection \<open>One frame\<close>

text \<open>
  \<^verbatim>\<open>Date.now()\<close> is a sequence \<open>clock\<close> of readings, one for each call in the frame.
  \<open>v\<close>, \<open>b\<close>, \<open>m\<close>, \<open>t\<close> are the scaled features.
\<close>

definition fade :: "Canvas \<Rightarrow> real \<Rightarrow> canvas_op list" where
  "fade c alpha =
     [FillStyle (Rgba 0 0 0 alpha), FillRect 0 0 (real (canvas_width c)) (real (canvas_height c))]"

definition glitch_line :: "Canvas \<Rightarrow> (nat \<Rightarrow> real) \<Rightarrow> nat \<Rightarrow> canvas_op list" where
  "glitch_line c rnd i =
     (let y = rnd i * real (canvas_height c)
      in [BeginPath, MoveTo 0 y, LineTo (real (canvas_width c)) y, Stroke])"

definition render_pure ::
  "Canvas \<Rightarrow> (nat \<Rightarrow> real) \<Rightarrow> (nat \<Rightarrow> real) \<Rightarrow> real \<Rightarrow> real \<Rightarrow> canvas_op list" where
  "render_pure c clock rnd v b =
     fade c 0.25 @
     (let pulseIntensity = v * 0.1
      in [FillStyle (Rgba 255 255 255 pulseIntensity),
          FillRect 0 0 (real (canvas_width c)) (real (canvas_height c))]) @
     (if b > 0.5 then
        (let hue = js_rem (clock 0 / 5) 360
         in [FillStyle (Hsl hue 100 60),
             FillRect 0 0 (real (canvas_width c)) (real (canvas_height c))]) @
        (if b > 0.8 then
           [StrokeStyle (Hex ''#fff''), LineWidth 15] @ concat (map (glitch_line c rnd) [0..<8])
         else [])
      else [])"

definition render_cubic ::
  "Canvas \<Rightarrow> real \<Rightarrow> real \<Rightarrow> real \<Rightarrow> Particle list \<Rightarrow> canvas_op list \<times> Particle list" where
  "render_cubic c b m t ps =
     (fade c 0.2 @ concat (map (\<lambda>p. snd (cubic_particle c b m t p)) ps),
      map (\<lambda>p. fst (cubic_particle c b m t p)) ps)"

text \<open>
  Mode \<^verbatim>\<open>waves\<close>. The inner loop runs for the indices \<open>i < length / 2\<close>; ribbon \<open>j\<close> reads
  the clock once for its hue and once for each point.
\<close>

definition wave_point ::
  "Canvas \<Rightarrow> (nat \<Rightarrow> real) \<Rightarrow> byte list \<Rightarrow> real \<Rightarrow> nat \<Rightarrow> nat \<Rightarrow> nat \<Rightarrow> canvas_op" where
  "wave_point c clock fd b n j i =
     (let sliceWidth = real (canvas_width c) / (real (length fd) / 2);
          x = real i * sliceWidth;
          v = real (unat (fd ! i)) / 128;
          offset = sin (real i * 0.12 + clock (j * (n + 1) + 1 + i) * 0.003 + real j) * 120 * b;
          y = (real (canvas_height c) / 2) - (v * real (canvas_height c) / 4) + offset
      in if i = 0 then MoveTo x y else LineTo x y)"

definition wave_ribbon ::
  "Canvas \<Rightarrow> (nat \<Rightarrow> real) \<Rightarrow> byte list \<Rightarrow> real \<Rightarrow> real \<Rightarrow> nat \<Rightarrow> canvas_op list" where
  "wave_ribbon c clock fd v b j =
     (let n = midEnd (length fd);
          baseHue = real (modernHues ! j);
          hue = js_rem (baseHue + sin (clock (j * (n + 1)) * 0.001) * 20) 360
      in [BeginPath,
          StrokeStyle (Hsla hue 90 60 (0.5 + b * 0.5)),
          LineWidth (3 + v * 20),
          LineCap ''round'',
          ShadowBlur (15 * v),
          ShadowColor (Hsla hue 90 60 0.6)] @
         map (wave_point c clock fd b n j) [0..<n] @
         [Stroke])"

definition render_waves ::
  "Canvas \<Rightarrow> (nat \<Rightarrow> real) \<Rightarrow> byte list \<Rightarrow> real \<Rightarrow> real \<Rightarrow> canvas_op list" where
  "render_waves c clock fd v b =
     fade c 0.12 @
     concat (map (wave_ribbon c clock fd v b) [0..<length modernHues]) @
     [BeginPath,
      Arc (real (canvas_width c) / 2) (real (canvas_height c) / 2) (50 + b * 150) 0 (pi * 2),
      StrokeStyle (Rgba 255 255 255 (b * 0.3)),
      LineWidth 2,
      Stroke]"

text \<open>
  \<^verbatim>\<open>render\<close>: the operations of one frame and the particle set after it. Every path
  ends by requesting the next frame.
\<close>

definition render ::
  "Canvas \<Rightarrow> Mode \<Rightarrow> real \<Rightarrow> (nat \<Rightarrow> real) \<Rightarrow> (nat \<Rightarrow> real) \<Rightarrow> AudioData option \<Rightarrow>
   Particle list \<Rightarrow> canvas_op list \<times> Particle list" where
  "render c mode sensitivity clock rnd a ps =
     (case a of
        None \<Rightarrow>
          ([FillStyle (Hex ''#000''),
            FillRect 0 0 (real (canvas_width c)) (real (canvas_height c))], ps)
      | Some d \<Rightarrow>
          let volume' = min 1 (volume d * sensitivity);
              bass' = min 1 (bass d * sensitivity);
              mid' = min 1 (mid d * sensitivity);
              treble' = min 1 (treble d * sensitivity)
          in if mode = ModePure then (render_pure c clock rnd volume' bass', ps)
             else if mode = ModeCubic then render_cubic c bass' mid' treble' ps
             else (render_waves c clock (frequencyData d) volume' bass', ps))"

subsection \<open>The life of the \<^verbatim>\<open>Visualizer\<close> component\<close>

text \<open>
  The component keeps the particle set in a ref across runs of its effect. The effect
  runs again whenever \<^verbatim>\<open>audioData\<close>, \<^verbatim>\<open>mode\<close> or \<^verbatim>\<open>sensitivity\<close> changes: it sizes the
  canvas to the window, initialises the particles and renders; afterwards \<^verbatim>\<open>render\<close> is
  called again for every animation frame with the same props, and a resize of the
  window sets the size of the canvas.
\<close>

record vis_state =
  v_canvas :: Canvas
  v_mode :: Mode
  v_sensitivity :: real
  v_audioData :: "AudioData option"
  particles :: "Particle list"
  frame :: "canvas_op list"

datatype vis_event =
    Effect Canvas Mode real "AudioData option" "nat \<Rightarrow> real" "nat \<Rightarrow> real"
  | Frame "nat \<Rightarrow> real" "nat \<Rightarrow> real"
  | Resize Canvas

text \<open>
  In \<open>Effect window mode sensitivity a clock rnd\<close> the draws of the initialisation come
  first; the frame rendered after it continues in the same sequence.
\<close>

fun vis_step :: "vis_event \<Rightarrow> vis_state \<Rightarrow> vis_state" where
  "vis_step (Effect window mode sensitivity a clock rnd) s =
     (let ps = init_particles window mode rnd (particles s);
          used = (if mode = ModeCubic \<and> length (particles s) = 0 then 8 * 45 else 0);
          r = render window mode sensitivity clock (\<lambda>k. rnd (used + k)) a ps
      in \<lparr> v_canvas = window, v_mode = mode, v_sensitivity = sensitivity, v_audioData = a,
           particles = snd r, frame = fst r \<rparr>)"
| "vis_step (Frame clock rnd) s =
     (let r = render (v_canvas s) (v_mode s) (v_sensitivity s) clock rnd (v_audioData s)
                (particles s)
      in s\<lparr> particles := snd r, frame := fst r \<rparr>)"
| "vis_step (Resize window) s = s\<lparr> v_canvas := window \<rparr>"

definition vis_run :: "vis_event list \<Rightarrow> vis_state \<Rightarrow> vis_state" where
  "vis_run evs s = fold vis_step evs s"


text \<open>The component at mount, with the initial props of \<^verbatim>\<open>App\<close>.\<close>

definition initial_vis :: vis_state where
  "initial_vis =
     \<lparr> v_canvas = \<lparr> canvas_width = 0, canvas_height = 0 \<rparr>, v_mode = ModePure,
       v_sensitivity = 1, v_audioData = None, particles = [], frame = [] \<rparr>"

section \<open>The reduction loop in closed form\<close>

lemma update_loop_fold:
  "update_loop data i s = fold (update_step data) [i..<length data] s"
proof (induction data i s rule: update_loop.induct)
  case (1 data i s)
  show ?case
  proof (cases "i < length data")
    case True
    then show ?thesis
      using "1.IH" by (subst update_loop.simps) (simp add: upt_conv_Cons)
  next
    case False
    then show ?thesis by (subst update_loop.simps) simp
  qed
qed

lemma in_bass_iff: "real i < real N * 0.15 \<longleftrightarrow> i < bassEnd N"
proof -
  have "real i < real N * 0.15 \<longleftrightarrow> real (20 * i) < real (3 * N)"
    by (simp add: field_simps)
  also have "\<dots> \<longleftrightarrow> 20 * i < 3 * N"
    by (simp only: of_nat_less_iff)
  also have "\<dots> \<longleftrightarrow> i < bassEnd N"
    unfolding bassEnd_def by arith
  finally show ?thesis .
qed

lemma in_mid_iff: "real i < real N * 0.5 \<longleftrightarrow> i < midEnd N"
proof -
  have "real i < real N * 0.5 \<longleftrightarrow> real (2 * i) < real N"
    by (simp add: field_simps)
  also have "\<dots> \<longleftrightarrow> 2 * i < N"
    by (simp only: of_nat_less_iff)
  also have "\<dots> \<longleftrightarrow> i < midEnd N"
    unfolding midEnd_def by arith
  finally show ?thesis .
qed

lemma bassEnd_le_midEnd: "bassEnd N \<le> midEnd N"
  unfolding bassEnd_def midEnd_def by arith

lemma midEnd_le: "midEnd N \<le> N"
  unfolding midEnd_def by arith

lemma fold_max_acc: "fold max xs (max (a::nat) c) = max a (fold max xs c)"
proof (induction xs arbitrary: c)
  case Nil
  show ?case by simp
next
  case (Cons x xs)
  have "fold max (x # xs) (max a c) = fold max xs (max a (max x c))"
    by (simp add: max.left_commute)
  also have "\<dots> = max a (fold max xs (max x c))"
    by (rule Cons.IH)
  finally show ?case by simp
qed

text \<open>The four accumulators after folding the body over a list of indices.\<close>

lemma update_step_bands:
  "update_step data i (v, b, m, t) =
     (if i < bassEnd (length data) then
        (v + real (unat (data ! i)), max b (real (unat (data ! i))), m, t)
      else if i < midEnd (length data) then
        (v + real (unat (data ! i)), b, m + real (unat (data ! i)), t)
      else (v + real (unat (data ! i)), b, m, t + real (unat (data ! i))))"
  unfolding update_step_def in_bass_iff in_mid_iff
  by (simp add: Let_def max_def)

lemma fold_update_step:
  "0 \<le> b \<Longrightarrow> fold (update_step data) is (v, b, m, t) =
     (v + real (sum_list (map (\<lambda>i. unat (data ! i)) is)),
      max b (real (fold max (map (\<lambda>i. unat (data ! i)) (filter (\<lambda>i. i < bassEnd (length data)) is)) 0)),
      m + real (sum_list (map (\<lambda>i. unat (data ! i))
            (filter (\<lambda>i. bassEnd (length data) \<le> i \<and> i < midEnd (length data)) is))),
      t + real (sum_list (map (\<lambda>i. unat (data ! i))
            (filter (\<lambda>i. midEnd (length data) \<le> i) is))))"
proof (induction "is" arbitrary: v b m t)
  case Nil
  then show ?case by simp
next
  case (Cons i "is")
  have le: "bassEnd (length data) \<le> midEnd (length data)"
    by (rule bassEnd_le_midEnd)
  show ?case
  proof (cases "i < bassEnd (length data)")
    case True
    have "fold max (map (\<lambda>i. unat (data ! i)) (filter (\<lambda>i. i < bassEnd (length data)) is))
           (max (unat (data ! i)) 0) =
         max (unat (data ! i))
           (fold max (map (\<lambda>i. unat (data ! i)) (filter (\<lambda>i. i < bassEnd (length data)) is)) 0)"
      by (rule fold_max_acc)
    moreover have "0 \<le> max b (real (unat (data ! i)))"
      using Cons.prems by simp
    ultimately show ?thesis
      using True le by (simp add: update_step_bands Cons.IH max.assoc of_nat_max)
  next
    case False
    show ?thesis
    proof (cases "i < midEnd (length data)")
      case True
      then show ?thesis
        using False Cons.prems by (simp add: update_step_bands Cons.IH)
    next
      case nm: False
      then show ?thesis
        using False Cons.prems by (simp add: update_step_bands Cons.IH)
    qed
  qed
qed

lemma filter_upt_range:
  "filter (\<lambda>i. a \<le> i \<and> i < b) [0..<N] = [a..<min b N]"
proof (induction N)
  case 0
  show ?case by simp
next
  case (Suc N)
  show ?case
  proof (cases "a \<le> N \<and> N < b")
    case True
    then have "min b (Suc N) = Suc N" "min b N = N" by simp_all
    with True Suc show ?thesis by simp
  next
    case False
    then have "[a..<min b (Suc N)] = [a..<min b N]"
      by (auto simp: min_def)
    with False Suc show ?thesis by simp
  qed
qed

lemma filter_upt_below: "filter (\<lambda>i. i < b) [0..<N] = [0..<min b N]"
  using filter_upt_range [of 0 b N] by simp

lemma filter_upt_above: "filter (\<lambda>i. a \<le> i) [0..<N] = [a..<N]"
proof -
  have "filter (\<lambda>i. a \<le> i) [0..<N] = filter (\<lambda>i. a \<le> i \<and> i < N) [0..<N]"
    by (rule filter_cong) auto
  then show ?thesis by (simp add: filter_upt_range)
qed

lemma map_nth_upt_slice:
  "b \<le> length xs \<Longrightarrow> map (\<lambda>i. f (xs ! i)) [a..<b] = map f (take (b - a) (drop a xs))"
proof -
  assume b: "b \<le> length xs"
  have "map f (take (b - a) (drop a xs)) = map f (take (b - a) (drop a (map ((!) xs) [0..<length xs])))"
    by (simp add: map_nth)
  also have "\<dots> = map f (map ((!) xs) (take (b - a) (drop a [0..<length xs])))"
    by (simp only: drop_map take_map)
  also have "take (b - a) (drop a [0..<length xs]) = [a..<b]"
  proof (cases "a \<le> b")
    case True
    with b have "a + (b - a) \<le> length xs" by simp
    then have "take (b - a) [a..<length xs] = [a..<a + (b - a)]"
      by (rule take_upt)
    with True show ?thesis by (simp add: drop_upt)
  next
    case False
    then show ?thesis by simp
  qed
  finally show ?thesis by (simp add: comp_def)
qed

lemma update_loop_closed:
  "update_loop data 0 (0, 0, 0, 0) =
     (real (bin_sum data), real (bin_peak (bass_slice data)),
      real (bin_sum (mid_slice data)), real (bin_sum (treble_slice data)))"
proof -
  let ?N = "length data"
  have b: "bassEnd ?N \<le> ?N"
    using bassEnd_le_midEnd [of ?N] midEnd_le [of ?N] by simp
  have m: "midEnd ?N \<le> ?N" by (rule midEnd_le)
  have 1: "map (\<lambda>i. unat (data ! i)) [0..<?N] = map unat data"
    using map_nth_upt_slice [of ?N data unat 0] by simp
  have 2: "map (\<lambda>i. unat (data ! i)) (filter (\<lambda>i. i < bassEnd ?N) [0..<?N]) = map unat (bass_slice data)"
    using b map_nth_upt_slice [of "bassEnd ?N" data unat 0]
    by (simp add: filter_upt_below bass_slice_def min_absorb1)
  have 3: "map (\<lambda>i. unat (data ! i)) (filter (\<lambda>i. bassEnd ?N \<le> i \<and> i < midEnd ?N) [0..<?N])
      = map unat (mid_slice data)"
    using m map_nth_upt_slice [of "midEnd ?N" data unat "bassEnd ?N"]
    by (simp add: filter_upt_range mid_slice_def min_absorb1)
  have 4: "map (\<lambda>i. unat (data ! i)) (filter (\<lambda>i. midEnd ?N \<le> i) [0..<?N]) = map unat (treble_slice data)"
    using map_nth_upt_slice [of ?N data unat "midEnd ?N"]
    by (simp add: filter_upt_above treble_slice_def)
  show ?thesis
    unfolding update_loop_fold
    by (subst fold_update_step) (simp_all only: 1 2 3 4 bin_sum_def bin_peak_def, simp_all)
qed

lemma snapshot_of_closed:
  "snapshot_of data tdata =
     \<lparr> volume = real (bin_sum data) / real (length data) / 255,
       bass = real (bin_peak (bass_slice data)) / 255,
       mid = real (bin_sum (mid_slice data)) / (real (length data) * 0.35) / 255,
       treble = real (bin_sum (treble_slice data)) / (real (length data) * 0.5) / 255,
       frequencyData = data,
       timeData = tdata \<rparr>"
  by (simp add: snapshot_of_def update_loop_closed Let_def)

lemma bassEnd_ceiling: "nat \<lceil>0.15 * real N\<rceil> = bassEnd N"
proof -
  have iff: "i < nat \<lceil>0.15 * real N\<rceil> \<longleftrightarrow> i < bassEnd N" for i :: nat
  proof -
    have "i < nat \<lceil>0.15 * real N\<rceil> \<longleftrightarrow> int i < \<lceil>0.15 * real N\<rceil>"
      by (rule zless_nat_eq_int_zless)
    also have "\<dots> \<longleftrightarrow> real i < real N * 0.15"
      by (simp add: less_ceiling_iff mult.commute)
    also have "\<dots> \<longleftrightarrow> i < bassEnd N"
      by (rule in_bass_iff)
    finally show ?thesis .
  qed
  have "\<not> nat \<lceil>0.15 * real N\<rceil> < bassEnd N"
    using iff [of "nat \<lceil>0.15 * real N\<rceil>"] by simp
  moreover have "\<not> bassEnd N < nat \<lceil>0.15 * real N\<rceil>"
    using iff [of "bassEnd N"] by simp
  ultimately show ?thesis by simp
qed

lemma bin_peak_Cons: "bin_peak (b # bs) = max (unat b) (bin_peak bs)"
  using fold_max_acc [of "map unat bs" "unat b" 0] by (simp add: bin_peak_def)

lemma bin_sum_replicate: "bin_sum (replicate n x) = n * unat x"
  by (induction n) (simp_all add: bin_sum_def)

lemma bin_peak_replicate: "bin_peak (replicate n x) = (if n = 0 then 0 else unat x)"
proof (induction n)
  case 0
  show ?case by (simp add: bin_peak_def)
next
  case (Suc n)
  have "bin_peak (replicate (Suc n) x) = max (unat x) (bin_peak (replicate n x))"
    by (simp only: replicate_Suc bin_peak_Cons)
  with Suc show ?case by simp
qed

lemma bin_sum_le: "bin_sum bs \<le> 255 * length bs"
proof (induction bs)
  case Nil
  show ?case by (simp add: bin_sum_def)
next
  case (Cons b bs)
  have "unat b < 2 ^ 8" using unsigned_less [of b, where ?'a = nat] by simp
  then have "unat b \<le> 255" by simp
  with Cons show ?case by (simp add: bin_sum_def)
qed

lemma bin_peak_le: "bin_peak bs \<le> 255"
proof (induction bs)
  case Nil
  show ?case by (simp add: bin_peak_def)
next
  case (Cons b bs)
  have "unat b < 2 ^ 8" using unsigned_less [of b, where ?'a = nat] by simp
  then have "unat b \<le> 255" by simp
  then show ?case using Cons by (simp add: bin_peak_Cons)
qed

lemma bassEnd_lower: "3 * N \<le> 20 * bassEnd N"
  unfolding bassEnd_def by arith

lemma midEnd_even: "even N \<Longrightarrow> 2 * midEnd N = N"
  unfolding midEnd_def by (auto elim: evenE)

lemma mid_count_even:
  assumes "even N \<or> N = 1"
  shows "20 * (midEnd N - bassEnd N) \<le> 7 * N"
proof (cases "N = 1")
  case True
  then show ?thesis by (simp add: midEnd_def bassEnd_def)
next
  case False
  with assms have "2 * midEnd N = N" by (simp add: midEnd_even)
  with bassEnd_lower [of N] show ?thesis by arith
qed

lemma treble_count: "2 * (N - midEnd N) \<le> N"
  unfolding midEnd_def by arith

lemma length_mid_slice: "length (mid_slice data) = midEnd (length data) - bassEnd (length data)"
  using midEnd_le [of "length data"] by (simp add: mid_slice_def)

lemma length_treble_slice: "length (treble_slice data) = length data - midEnd (length data)"
  by (simp add: treble_slice_def)

lemma snapshot_sel:
  "volume (snapshot_of data tdata) = real (bin_sum data) / real (length data) / 255"
  "bass (snapshot_of data tdata) = real (bin_peak (bass_slice data)) / 255"
  "mid (snapshot_of data tdata) = real (bin_sum (mid_slice data)) / (real (length data) * 0.35) / 255"
  "treble (snapshot_of data tdata) = real (bin_sum (treble_slice data)) / (real (length data) * 0.5) / 255"
  "frequencyData (snapshot_of data tdata) = data"
  "timeData (snapshot_of data tdata) = tdata"
  by (simp_all add: snapshot_of_closed)

lemma quot_le_one: "0 < c \<Longrightarrow> (x::real) \<le> 255 * c \<Longrightarrow> x / c / 255 \<le> 1"
  by (simp add: field_simps)

lemma bassEnd_le: "bassEnd N \<le> N"
  using bassEnd_le_midEnd [of N] midEnd_le [of N] by simp

lemma slices_replicate:
  "bass_slice (replicate n x) = replicate (bassEnd n) x"
  "mid_slice (replicate n x) = replicate (midEnd n - bassEnd n) x"
  "treble_slice (replicate n x) = replicate (n - midEnd n) x"
  using bassEnd_le [of n] midEnd_le [of n] bassEnd_le_midEnd [of n]
  by (simp_all add: bass_slice_def mid_slice_def treble_slice_def min_def)

lemma bands_128: "bassEnd 128 = 20" "midEnd 128 = 64"
  by (simp_all add: bassEnd_def midEnd_def)

lemma snapshot_replicate:
  "volume (snapshot_of (replicate n x) tdata) = real (n * unat x) / real n / 255"
  "bass (snapshot_of (replicate n x) tdata) = real (if bassEnd n = 0 then 0 else unat x) / 255"
  "mid (snapshot_of (replicate n x) tdata) = real ((midEnd n - bassEnd n) * unat x) / (real n * 0.35) / 255"
  "treble (snapshot_of (replicate n x) tdata) = real ((n - midEnd n) * unat x) / (real n * 0.5) / 255"
  by (simp_all only: snapshot_sel slices_replicate bin_sum_replicate bin_peak_replicate length_replicate)

lemma bin_peak_Nil: "bin_peak [] = 0"
  by (simp add: bin_peak_def)

lemma bin_peak_append: "bin_peak (xs @ ys) = max (bin_peak xs) (bin_peak ys)"
proof (induction xs)
  case Nil
  show ?case by (simp add: bin_peak_def)
next
  case (Cons x xs)
  then show ?case by (simp add: bin_peak_Cons max.assoc)
qed

lemma bin_peak_Max: "bin_peak bs = Max (insert 0 (unat ` set bs))"
proof (induction bs)
  case Nil
  show ?case by (simp add: bin_peak_def)
next
  case (Cons b bs)
  have "Max (insert 0 (unat ` set (b # bs))) = Max (insert (unat b) (insert 0 (unat ` set bs)))"
    by (simp add: insert_commute)
  also have "\<dots> = max (unat b) (Max (insert 0 (unat ` set bs)))"
    by (rule Max_insert) simp_all
  finally show ?case using Cons by (simp add: bin_peak_Cons)
qed

lemma floor_015: "nat \<lfloor>0.15 * real N\<rfloor> = (3 * N) div 20"
proof -
  have "0.15 * real N = real (3 * N) / real 20" by simp
  then have "\<lfloor>0.15 * real N\<rfloor> = int ((3 * N) div 20)"
    by (simp only: floor_divide_of_nat_eq)
  then show ?thesis by simp
qed

section \<open>Properties of the feature extractor\<close>

text \<open>
  C1 (as stated): for a frequency buffer of 128 bins all equal to 255 the published
  features are volume = 1, bass = 1, mid = 1 and treble = 1. The mid feature is not 1:
  the mid band holds 44 bins (indices 20 to 63) and is divided by the nominal width
  \<open>0.35 * 128 = 44.8\<close>.
\<close>

theorem all_255_mid_counterexample:
  "mid (snapshot_of (replicate 128 255) (replicate 128 128)) \<noteq> 1"
  by (simp add: snapshot_replicate bands_128)

text \<open>
  C1 (amended): for a frequency buffer of 128 bins all equal to 255 the published
  features are volume = 1, bass = 1, mid = 55/56 and treble = 1; with sensitivity 1 in
  mode \<^verbatim>\<open>pure\<close> the frame is the fade, the white pulse at opacity 0.1, the full-screen
  colour flash of the branch \<open>bass > 0.5\<close> and the eight white glitch lines of the branch
  \<open>bass > 0.8\<close>, and nothing else.
\<close>

theorem all_255_pure_frame:
  "volume (snapshot_of (replicate 128 255) tdata) = 1 \<and>
   bass (snapshot_of (replicate 128 255) tdata) = 1 \<and>
   mid (snapshot_of (replicate 128 255) tdata) = 55 / 56 \<and>
   treble (snapshot_of (replicate 128 255) tdata) = 1 \<and>
   render c ModePure 1 clock rnd (Some (snapshot_of (replicate 128 255) tdata)) ps =
     ([FillStyle (Rgba 0 0 0 0.25),
       FillRect 0 0 (real (canvas_width c)) (real (canvas_height c)),
       FillStyle (Rgba 255 255 255 0.1),
       FillRect 0 0 (real (canvas_width c)) (real (canvas_height c)),
       FillStyle (Hsl (js_rem (clock 0 / 5) 360) 100 60),
       FillRect 0 0 (real (canvas_width c)) (real (canvas_height c)),
       StrokeStyle (Hex ''#fff''),
       LineWidth 15] @ concat (map (glitch_line c rnd) [0..<8]), ps)"
proof -
  let ?S = "snapshot_of (replicate 128 255) tdata"
  have v: "volume ?S = 1" by (simp add: snapshot_replicate)
  have b: "bass ?S = 1" by (simp add: snapshot_replicate bands_128)
  have m: "mid ?S = 55 / 56" by (simp add: snapshot_replicate bands_128)
  have t: "treble ?S = 1" by (simp add: snapshot_replicate bands_128)
  have r: "render c ModePure 1 clock rnd (Some ?S) ps =
      (render_pure c clock rnd 1 1, ps)"
    by (simp add: render_def v b Let_def)
  show ?thesis
    unfolding r by (simp add: v b m t render_pure_def fade_def Let_def)
qed

text \<open>
  C2 (as stated): bass is the peak over the indices \<open>0 .. \<lfloor>0.15 * N\<rfloor> - 1\<close>, divided by
  255. For \<open>N = 128\<close> that range ends at index 18, but the loop takes index 19 too
  (\<open>19 < 19.2\<close>): a single spike of 200 at index 19 gives bass = 200/255, where the
  stated formula gives 0.
\<close>

theorem bass_floor_counterexample:
  "bass (snapshot_of (replicate 19 0 @ 200 # replicate 108 0) (replicate 128 128))
     \<noteq> bass_floor_formula (replicate 19 0 @ 200 # replicate 108 0)"
proof -
  let ?d = "replicate 19 0 @ 200 # replicate 108 (0::byte)"
  have len: "length ?d = 128" by simp
  have "bass_slice ?d = replicate 19 0 @ [200]"
    unfolding bass_slice_def len bands_128 by simp
  then have 1: "bass (snapshot_of ?d (replicate 128 128)) = 200 / 255"
    by (simp add: snapshot_sel bin_peak_append bin_peak_replicate bin_peak_Cons bin_peak_Nil)
  have "take (nat \<lfloor>0.15 * real (length ?d)\<rfloor>) ?d = replicate 19 0"
    unfolding floor_015 len by simp
  then have 2: "bass_floor_formula ?d = 0"
    by (simp add: bass_floor_formula_def bin_peak_replicate)
  show ?thesis unfolding 1 2 by simp
qed

text \<open>
  C2 (amended): for every frequency buffer of length \<open>N\<close>, bass is the peak over exactly
  the indices \<open>i\<close> with \<open>i < 0.15 * N\<close>, that is \<open>0 .. \<lceil>0.15 * N\<rceil> - 1\<close>, divided by 255
  (a peak, not a mean); a buffer with a spike at index 0 and zero elsewhere yields
  bass = spike / 255 for every length.
\<close>

theorem bass_is_peak_below_15_percent:
  "bass (snapshot_of data tdata) =
     real (bin_peak (take (nat \<lceil>0.15 * real (length data)\<rceil>) data)) / 255 \<and>
   bin_peak (take (nat \<lceil>0.15 * real (length data)\<rceil>) data) =
     Max (insert 0 {unat (data ! i) | i. i < length data \<and> real i < real (length data) * 0.15}) \<and>
   bass (snapshot_of (spike # replicate n 0) tdata) = real (unat spike) / 255"
proof -
  let ?k = "nat \<lceil>0.15 * real (length data)\<rceil>"
  have k: "?k = bassEnd (length data)" by (rule bassEnd_ceiling)
  have 1: "bass (snapshot_of data tdata) = real (bin_peak (take ?k data)) / 255"
    unfolding k by (simp add: snapshot_sel bass_slice_def)
  have "unat ` set (take ?k data) =
      {unat (data ! i) | i. i < length data \<and> real i < real (length data) * 0.15}"
    unfolding in_bass_iff k using bassEnd_le [of "length data"]
    by (auto simp: set_conv_nth image_def min_absorb2) 
  then have 2: "bin_peak (take ?k data) =
      Max (insert 0 {unat (data ! i) | i. i < length data \<and> real i < real (length data) * 0.15})"
    by (simp only: bin_peak_Max)
  have "0 < bassEnd (Suc n)" unfolding bassEnd_def by simp
  then obtain j where j: "bassEnd (Suc n) = Suc j" by (cases "bassEnd (Suc n)") simp_all
  have "bass_slice (spike # replicate n 0) = spike # replicate (min j n) 0"
    by (simp add: bass_slice_def j)
  then have 3: "bass (snapshot_of (spike # replicate n 0) tdata) = real (unat spike) / 255"
    by (simp add: snapshot_sel bin_peak_Cons bin_peak_replicate)
  from 1 2 3 show ?thesis by simp
qed

text \<open>
  C3: for every non-empty frequency buffer of length \<open>N\<close>, mid is the sum of the bins of
  the mid slice divided by \<open>0.35 * N\<close> and by 255, and treble is the sum of the bins of the
  upper slice divided by \<open>0.5 * N\<close> and by 255: the divisors are the nominal widths, not
  the numbers of elements of the slices. The mid slice holds the bins at the indices
  that fail \<open>i < 0.15 * N\<close> and pass \<open>i < 0.5 * N\<close>, the upper slice those that fail both.
\<close>

theorem nominal_divisors:
  assumes "data \<noteq> []"
  shows "mid (snapshot_of data tdata) =
           real (bin_sum (mid_slice data)) / (0.35 * real (length data)) / 255 \<and>
         treble (snapshot_of data tdata) =
           real (bin_sum (treble_slice data)) / (0.5 * real (length data)) / 255 \<and>
         mid_slice data = map ((!) data)
           (filter (\<lambda>i. \<not> real i < real (length data) * 0.15 \<and> real i < real (length data) * 0.5)
              [0..<length data]) \<and>
         treble_slice data = map ((!) data)
           (filter (\<lambda>i. \<not> real i < real (length data) * 0.15 \<and> \<not> real i < real (length data) * 0.5)
              [0..<length data])"
proof -
  let ?N = "length data"
  have 1: "mid (snapshot_of data tdata) = real (bin_sum (mid_slice data)) / (0.35 * real ?N) / 255"
    by (simp add: snapshot_sel mult.commute)
  have 2: "treble (snapshot_of data tdata) = real (bin_sum (treble_slice data)) / (0.5 * real ?N) / 255"
    by (simp add: snapshot_sel mult.commute)
  have "filter (\<lambda>i. \<not> i < bassEnd ?N \<and> i < midEnd ?N) [0..<?N] =
        filter (\<lambda>i. bassEnd ?N \<le> i \<and> i < midEnd ?N) [0..<?N]"
    by (rule filter_cong) auto
  then have 3: "mid_slice data = map ((!) data) (filter (\<lambda>i. \<not> i < bassEnd ?N \<and> i < midEnd ?N) [0..<?N])"
    using midEnd_le [of ?N] map_nth_upt_slice [of "midEnd ?N" data "\<lambda>x. x" "bassEnd ?N"]
    by (simp add: filter_upt_range mid_slice_def min_absorb1)
  have "filter (\<lambda>i. \<not> i < bassEnd ?N \<and> \<not> i < midEnd ?N) [0..<?N] =
        filter (\<lambda>i. midEnd ?N \<le> i) [0..<?N]"
    using bassEnd_le_midEnd [of ?N] by (intro filter_cong) auto
  then have 4: "treble_slice data = map ((!) data) (filter (\<lambda>i. \<not> i < bassEnd ?N \<and> \<not> i < midEnd ?N) [0..<?N])"
    using map_nth_upt_slice [of ?N data "\<lambda>x. x" "midEnd ?N"]
    by (simp add: filter_upt_above treble_slice_def)
  show ?thesis
    unfolding in_bass_iff in_mid_iff using 1 2 3 4 by simp
qed

text \<open>
  An instance with \<open>N = 10\<close>, not a multiple of 20: the mid slice has 3 elements, the
  nominal width is 3.5, and ten bins of 255 give mid = 6/7 where a mean over the
  elements would give 1.
\<close>

theorem nominal_divisors_witness:
  "replicate 10 (255::byte) \<noteq> [] \<and>
   mid (snapshot_of (replicate 10 255) (replicate 10 128)) = 6 / 7 \<and>
   treble (snapshot_of (replicate 10 255) (replicate 10 128)) = 1 \<and>
   length (mid_slice (replicate 10 (255::byte))) = 3 \<and>
   real (bin_sum (mid_slice (replicate 10 255))) / real (length (mid_slice (replicate 10 (255::byte)))) / 255 = 1"
proof -
  have h: "replicate 10 (255::byte) \<noteq> []" by simp
  have b: "bassEnd 10 = 2" "midEnd 10 = 5" by (simp_all add: bassEnd_def midEnd_def)
  have m: "mid_slice (replicate 10 (255::byte)) = replicate 3 255"
    and t: "treble_slice (replicate 10 (255::byte)) = replicate 5 255"
    by (simp_all add: slices_replicate b)
  from nominal_divisors [OF h, of "replicate 10 128"]
  have "mid (snapshot_of (replicate 10 255) (replicate 10 128)) =
          real (bin_sum (mid_slice (replicate 10 255))) / (0.35 * real (length (replicate 10 (255::byte)))) / 255"
    and "treble (snapshot_of (replicate 10 255) (replicate 10 128)) =
          real (bin_sum (treble_slice (replicate 10 255))) / (0.5 * real (length (replicate 10 (255::byte)))) / 255"
    by simp_all
  then show ?thesis
    unfolding m t by (simp add: bin_sum_replicate)
qed

text \<open>
  C4: for every buffer of bytes whose length is a power of two (128 in a session), the
  four features of the published snapshot lie in \<open>[0, 1]\<close>.
\<close>

theorem snapshot_in_unit_interval:
  assumes "length data = 2 ^ k"
  shows "0 \<le> volume (snapshot_of data tdata) \<and> volume (snapshot_of data tdata) \<le> 1
       \<and> 0 \<le> bass (snapshot_of data tdata) \<and> bass (snapshot_of data tdata) \<le> 1
       \<and> 0 \<le> mid (snapshot_of data tdata) \<and> mid (snapshot_of data tdata) \<le> 1
       \<and> 0 \<le> treble (snapshot_of data tdata) \<and> treble (snapshot_of data tdata) \<le> 1"
proof -
  let ?N = "length data"
  have pos: "0 < real ?N" using assms by simp
  have ev: "even ?N \<or> ?N = 1" using assms by (cases k) simp_all
  have "bin_sum data \<le> 255 * ?N" by (rule bin_sum_le)
  then have "real (bin_sum data) \<le> real (255 * ?N)" by (simp only: of_nat_le_iff)
  then have v: "real (bin_sum data) \<le> 255 * real ?N" by simp
  have "real (bin_peak (bass_slice data)) \<le> real 255"
    using bin_peak_le [of "bass_slice data"] by (simp only: of_nat_le_iff)
  then have b: "real (bin_peak (bass_slice data)) \<le> 255" by simp
  have "20 * bin_sum (mid_slice data) \<le> 255 * (20 * length (mid_slice data))"
    using bin_sum_le [of "mid_slice data"] by simp
  also have "\<dots> \<le> 255 * (7 * ?N)"
    using mid_count_even [OF ev] by (simp add: length_mid_slice)
  finally have "real (20 * bin_sum (mid_slice data)) \<le> real (255 * (7 * ?N))"
    by (simp only: of_nat_le_iff)
  then have m: "real (bin_sum (mid_slice data)) \<le> 255 * (real ?N * 0.35)"
    by simp
  have "2 * bin_sum (treble_slice data) \<le> 255 * (2 * length (treble_slice data))"
    using bin_sum_le [of "treble_slice data"] by simp
  also have "\<dots> \<le> 255 * ?N"
    using treble_count [of ?N] by (simp add: length_treble_slice)
  finally have "real (2 * bin_sum (treble_slice data)) \<le> real (255 * ?N)"
    by (simp only: of_nat_le_iff)
  then have t: "real (bin_sum (treble_slice data)) \<le> 255 * (real ?N * 0.5)"
    by simp
  have 1: "volume (snapshot_of data tdata) \<le> 1"
    unfolding snapshot_sel using pos v by (rule quot_le_one)
  have 2: "bass (snapshot_of data tdata) \<le> 1"
    unfolding snapshot_sel using b by simp
  have 3: "mid (snapshot_of data tdata) \<le> 1"
    unfolding snapshot_sel using _ m by (rule quot_le_one) (use pos in simp)
  have 4: "treble (snapshot_of data tdata) \<le> 1"
    unfolding snapshot_sel using _ t by (rule quot_le_one) (use pos in simp)
  have 5: "0 \<le> volume (snapshot_of data tdata)" "0 \<le> bass (snapshot_of data tdata)"
    "0 \<le> mid (snapshot_of data tdata)" "0 \<le> treble (snapshot_of data tdata)"
    unfolding snapshot_sel by simp_all
  from 1 2 3 4 5 show ?thesis by simp
qed

theorem snapshot_in_unit_interval_witness:
  "length (replicate 128 (255::byte)) = 2 ^ 7 \<and>
   0 \<le> volume (snapshot_of (replicate 128 255) (replicate 128 128)) \<and>
   volume (snapshot_of (replicate 128 255) (replicate 128 128)) \<le> 1 \<and>
   0 \<le> bass (snapshot_of (replicate 128 255) (replicate 128 128)) \<and>
   bass (snapshot_of (replicate 128 255) (replicate 128 128)) \<le> 1 \<and>
   0 \<le> mid (snapshot_of (replicate 128 255) (replicate 128 128)) \<and>
   mid (snapshot_of (replicate 128 255) (replicate 128 128)) \<le> 1 \<and>
   0 \<le> treble (snapshot_of (replicate 128 255) (replicate 128 128)) \<and>
   treble (snapshot_of (replicate 128 255) (replicate 128 128)) \<le> 1"
proof -
  have h: "length (replicate 128 (255::byte)) = 2 ^ 7" by simp
  from snapshot_in_unit_interval [OF h, of "replicate 128 128"] h show ?thesis
    by blast
qed

section \<open>Properties of the capture session\<close>

lemma update_no_session: "analyzerRef h = None \<Longrightarrow> update env h = h"
  by (simp add: update_def)

lemma ticks_no_session: "analyzerRef h = None \<Longrightarrow> ticks envs h = h"
  unfolding ticks_def by (induction envs) (simp_all add: update_no_session)

lemma stop_no_session: "no_session h \<Longrightarrow> stop h = h"
  by (simp add: no_session_def stop_def)

lemma stop_refs:
  "audioData (stop h) = None" "audioContextRef (stop h) = None" "sourceRef (stop h) = None"
  "analyzerRef (stop h) = None" "dataArrayRef (stop h) = None" "timeArrayRef (stop h) = None"
  by (simp_all add: stop_def Let_def split: option.splits)

lemma stop_frame:
  "animationFrameRef (stop h) = (if animationFrameRef h = Some 0 then Some 0 else None)"
  by (simp add: stop_def Let_def split: option.splits)

lemma stop_stop: "stop (stop h) = stop h"
proof -
  have "stop h' = h'"
    if "audioData h' = None" "audioContextRef h' = None" "sourceRef h' = None"
      "analyzerRef h' = None" "dataArrayRef h' = None" "timeArrayRef h' = None"
      "animationFrameRef h' = None \<or> animationFrameRef h' = Some 0" for h'
    using that by (auto simp: stop_def)
  then show ?thesis
    using stop_refs [of h] stop_frame [of h] by simp
qed

lemma length_fill_array: "length (fill_array n f arr) = length arr"
  by (simp add: fill_array_def)

lemma update_publishes:
  assumes "analyzerRef h = Some fftSize" "dataArrayRef h = Some darr" "timeArrayRef h = Some tarr"
  shows "\<exists>data tdata. length data = length darr \<and> length tdata = length tarr \<and>
           dataArrayRef (update env h) = Some data \<and> timeArrayRef (update env h) = Some tdata \<and>
           analyzerRef (update env h) = Some fftSize \<and>
           audioData (update env h) = Some (snapshot_of data tdata)"
  using assms by (simp add: update_def Let_def length_fill_array)

lemma start_granted:
  assumes "getUserMedia se = Inr tracks" "audioContextRef h = None"
  shows "\<exists>h' data tdata. start se te h = Inr h' \<and> length data = 128 \<and> length tdata = 128 \<and>
           audioData h' = Some (snapshot_of data tdata) \<and>
           dataArrayRef h' = Some data \<and> timeArrayRef h' = Some tdata \<and>
           analyzerRef h' = Some 256 \<and> audioContextRef h' = Some (contextState se) \<and>
           sourceRef h' = Some tracks \<and> animationFrameRef h' = Some (frameId te)"
  using assms by (simp add: start_def start_try_def update_def Let_def length_fill_array)

text \<open>
  C5: if activation fails because \<^verbatim>\<open>getUserMedia\<close> rejects (permission denied or no
  device), \<^verbatim>\<open>start\<close> returns normally and the hook is as before the call: its only
  platform call is the \<^verbatim>\<open>console.error\<close>, no ref is set and no frame is requested. From
  a hook without a session, no later run of \<^verbatim>\<open>update\<close> publishes a snapshot, and a
  following \<^verbatim>\<open>stop\<close> changes nothing.
\<close>

theorem failed_activation_leaves_no_session:
  assumes "getUserMedia se = Inl err"
  shows "start se te h =
           Inr (if audioContextRef h = None then h\<lparr> calls := calls h @ [ConsoleError err] \<rparr> else h) \<and>
         (no_session h \<longrightarrow>
            (\<exists>h'. start se te h = Inr h' \<and> no_session h' \<and> ticks envs h' = h' \<and>
                  audioData (ticks envs h') = None \<and> stop h' = h'))"
proof -
  have 1: "start se te h =
      Inr (if audioContextRef h = None then h\<lparr> calls := calls h @ [ConsoleError err] \<rparr> else h)"
    using assms by (simp add: start_def start_try_def)
  have 2: "\<exists>h'. start se te h = Inr h' \<and> no_session h' \<and> ticks envs h' = h' \<and>
              audioData (ticks envs h') = None \<and> stop h' = h'" if ns: "no_session h"
  proof -
    let ?h = "h\<lparr> calls := calls h @ [ConsoleError err] \<rparr>"
    have s: "start se te h = Inr ?h" using 1 ns by (simp add: no_session_def)
    have n: "no_session ?h" using ns by (simp add: no_session_def)
    then have a: "analyzerRef ?h = None" and d: "audioData ?h = None"
      by (simp_all add: no_session_def)
    have t: "ticks envs ?h = ?h" using a by (rule ticks_no_session)
    have "stop ?h = ?h" using n by (rule stop_no_session)
    with s n t d show ?thesis by simp
  qed
  from 1 2 show ?thesis by blast
qed

theorem failed_activation_witness:
  "getUserMedia \<lparr> getUserMedia = Inl PermissionDenied, contextState = Running \<rparr> = Inl PermissionDenied \<and>
   no_session initial_hook \<and>
   start \<lparr> getUserMedia = Inl PermissionDenied, contextState = Running \<rparr>
         \<lparr> freqSample = (\<lambda>i. 255), timeSample = (\<lambda>i. 128), frameId = 1 \<rparr> initial_hook =
     Inr (initial_hook\<lparr> calls := [ConsoleError PermissionDenied] \<rparr>) \<and>
   stop (initial_hook\<lparr> calls := [ConsoleError PermissionDenied] \<rparr>) =
     initial_hook\<lparr> calls := [ConsoleError PermissionDenied] \<rparr>"
proof -
  let ?se = "\<lparr> getUserMedia = Inl PermissionDenied, contextState = Running \<rparr>"
  let ?te = "\<lparr> freqSample = (\<lambda>i. 255), timeSample = (\<lambda>i. 128), frameId = 1 \<rparr>"
  have h: "getUserMedia ?se = Inl PermissionDenied" by simp
  have n: "no_session initial_hook" by (simp add: no_session_def initial_hook_def)
  from failed_activation_leaves_no_session [OF h, of ?te initial_hook "[]"] n
  show ?thesis by (auto simp: initial_hook_def)
qed

text \<open>
  C6: \<^verbatim>\<open>stop\<close> is idempotent from every state; it clears the snapshot, the audio
  context, the source, the analyser and both buffers, and also the animation-frame
  handle (a handle returned by \<^verbatim>\<open>requestAnimationFrame\<close> is never \<open>0\<close>); on a hook
  without a session, and so before any activation, it changes nothing.
\<close>

theorem stop_idempotent:
  "stop (stop h) = stop h \<and>
   audioData (stop h) = None \<and> audioContextRef (stop h) = None \<and> sourceRef (stop h) = None \<and>
   analyzerRef (stop h) = None \<and> dataArrayRef (stop h) = None \<and> timeArrayRef (stop h) = None \<and>
   (animationFrameRef h \<noteq> Some 0 \<longrightarrow> animationFrameRef (stop h) = None \<and> no_session (stop h)) \<and>
   (no_session h \<longrightarrow> stop h = h) \<and>
   stop initial_hook = initial_hook"
proof -
  have "no_session initial_hook" by (simp add: no_session_def initial_hook_def)
  then have "stop initial_hook = initial_hook" by (rule stop_no_session)
  then show ?thesis
    using stop_stop [of h] stop_refs [of h] stop_frame [of h] stop_no_session [of h]
    by (simp add: no_session_def)
qed

theorem stop_idempotent_witness:
  "animationFrameRef
     \<lparr> audioData = Some (snapshot_of (replicate 128 0) (replicate 128 128)),
       audioContextRef = Some Running, analyzerRef = Some 256,
       dataArrayRef = Some (replicate 128 0), timeArrayRef = Some (replicate 128 128),
       sourceRef = Some [0], animationFrameRef = Some 1,
       calls = [RequestAnimationFrame 1] \<rparr> \<noteq> Some 0 \<and>
   stop
     \<lparr> audioData = Some (snapshot_of (replicate 128 0) (replicate 128 128)),
       audioContextRef = Some Running, analyzerRef = Some 256,
       dataArrayRef = Some (replicate 128 0), timeArrayRef = Some (replicate 128 128),
       sourceRef = Some [0], animationFrameRef = Some 1,
       calls = [RequestAnimationFrame 1] \<rparr> =
     initial_hook\<lparr> calls := [RequestAnimationFrame 1, CancelAnimationFrame 1, CloseContext, StopTrack 0] \<rparr> \<and>
   no_session
     (initial_hook\<lparr> calls := [RequestAnimationFrame 1, CancelAnimationFrame 1, CloseContext, StopTrack 0] \<rparr>) \<and>
   stop (initial_hook\<lparr> calls := [RequestAnimationFrame 1, CancelAnimationFrame 1, CloseContext, StopTrack 0] \<rparr>) =
     initial_hook\<lparr> calls := [RequestAnimationFrame 1, CancelAnimationFrame 1, CloseContext, StopTrack 0] \<rparr>"
proof -
  let ?h = "\<lparr> audioData = Some (snapshot_of (replicate 128 0) (replicate 128 128)),
       audioContextRef = Some Running, analyzerRef = Some 256,
       dataArrayRef = Some (replicate 128 0), timeArrayRef = Some (replicate 128 128),
       sourceRef = Some [0], animationFrameRef = Some (1::nat),
       calls = [RequestAnimationFrame 1] \<rparr>"
  let ?k = "initial_hook\<lparr> calls := [RequestAnimationFrame 1, CancelAnimationFrame 1, CloseContext, StopTrack 0] \<rparr>"
  have f: "animationFrameRef ?h \<noteq> Some 0" by simp
  have s: "stop ?h = ?k" by (simp add: stop_def initial_hook_def)
  from stop_idempotent [of ?h] f have "stop (stop ?h) = stop ?h" and "no_session (stop ?h)"
    by blast+
  then show ?thesis unfolding s using f by simp
qed

section \<open>Properties of the indicator and of the renderer\<close>

text \<open>
  C8 (as stated): segment \<open>i\<close> is lit exactly when \<open>\<lfloor>volume * 5\<rfloor> > i\<close>. For the
  snapshot of a buffer with one bin equal to 1, volume is \<open>1/32640\<close>: segment 0 is lit
  (\<open>volume * 5 > 0\<close>) although \<open>\<lfloor>volume * 5\<rfloor> = 0\<close>.
\<close>

theorem segment_floor_counterexample:
  "the (signal_strength True (Some (snapshot_of (1 # replicate 127 0) (replicate 128 128)))) ! 0
     \<noteq> segment_floor_rule (volume (snapshot_of (1 # replicate 127 0) (replicate 128 128))) 0"
proof -
  have "bin_sum (1 # replicate 127 0) = 1"
    using bin_sum_replicate [of 127 0] by (simp add: bin_sum_def)
  then have v: "volume (snapshot_of (1 # replicate 127 0) (replicate 128 128)) = 1 / 128 / 255"
    by (simp add: snapshot_sel)
  have l: "the (signal_strength True (Some (snapshot_of (1 # replicate 127 0) (replicate 128 128)))) ! 0"
    by (simp add: signal_strength_def upt_conv_Cons v)
  have f: "\<not> segment_floor_rule (volume (snapshot_of (1 # replicate 127 0) (replicate 128 128))) 0"
    by (simp add: segment_floor_rule_def v)
  from l f show ?thesis by simp
qed

text \<open>
  C8 (amended): for every snapshot and every segment index \<open>i\<close> in \<open>{0, ..., 4}\<close>, segment
  \<open>i\<close> is lit exactly when \<open>volume * 5 > i\<close>, that is when \<open>\<lceil>volume * 5\<rceil> > i\<close>; it is lit
  whenever \<open>\<lfloor>volume * 5\<rfloor> > i\<close>.
\<close>

theorem segment_lit_iff:
  "i < 5 \<Longrightarrow>
     \<exists>segs. signal_strength True (Some d) = Some segs \<and> length segs = 5 \<and>
       (segs ! i \<longleftrightarrow> volume d * 5 > real i) \<and>
       (segs ! i \<longleftrightarrow> \<lceil>volume d * 5\<rceil> > int i) \<and>
       (segment_floor_rule (volume d) i \<longrightarrow> segs ! i)"
proof -
  assume i: "i < 5"
  let ?segs = "map (\<lambda>i. volume d * 5 > real i) [0..<5]"
  have 1: "signal_strength True (Some d) = Some ?segs" by (simp add: signal_strength_def)
  have 2: "?segs ! i \<longleftrightarrow> volume d * 5 > real i" using i by simp
  have 3: "volume d * 5 > real i \<longleftrightarrow> \<lceil>volume d * 5\<rceil> > int i"
    by (simp add: less_ceiling_iff)
  have 4: "segment_floor_rule (volume d) i \<longrightarrow> volume d * 5 > real i"
    unfolding segment_floor_rule_def by linarith
  show ?thesis
    unfolding 1 using 2 3 4 by (intro exI [of _ ?segs]) simp
qed

theorem segment_lit_iff_witness:
  "(0::nat) < 5 \<and>
   signal_strength True (Some (snapshot_of (1 # replicate 127 0) (replicate 128 128))) =
     Some [True, False, False, False, False] \<and>
   \<not> segment_floor_rule (volume (snapshot_of (1 # replicate 127 0) (replicate 128 128))) 0"
proof -
  let ?d = "snapshot_of (1 # replicate 127 0) (replicate 128 128)"
  have "bin_sum (1 # replicate 127 0) = 1"
    using bin_sum_replicate [of 127 0] by (simp add: bin_sum_def)
  then have v: "volume ?d = 1 / 128 / 255"
    by (simp add: snapshot_sel)
  have i: "(0::nat) < 5" by simp
  from segment_lit_iff [OF i, of ?d] obtain segs where
    s: "signal_strength True (Some ?d) = Some segs" and z: "segs ! 0 \<longleftrightarrow> volume ?d * 5 > real (0::nat)"
    by blast
  have "signal_strength True (Some ?d) = Some [True, False, False, False, False]"
    by (simp add: signal_strength_def upt_conv_Cons v)
  moreover have "\<not> segment_floor_rule (volume ?d) 0"
    by (simp add: segment_floor_rule_def v)
  ultimately show ?thesis using s z by simp
qed

lemma cubic_particle_mid: "cubic_particle c b m t p = cubic_particle c b m' t p"
  by (simp add: cubic_particle_def Let_def)

lemma render_cubic_mid: "render_cubic c b m t ps = render_cubic c b m' t ps"
  unfolding render_cubic_def cubic_particle_mid [of c b m t _ m'] by (rule refl)

lemma length_render:
  "length (snd (render c mode sensitivity clock rnd a ps)) = length ps"
  by (cases a) (simp_all add: render_def render_cubic_def Let_def)

lemma render_other_mode:
  "mode \<noteq> ModeCubic \<Longrightarrow> snd (render c mode sensitivity clock rnd a ps) = ps"
  by (cases a) (simp_all add: render_def Let_def)

lemma length_init_particles:
  "length (init_particles c mode rnd ps) =
     (if mode = ModeCubic \<and> ps = [] then 45 else length ps)"
  by (simp add: init_particles_def)

lemma length_vis_step:
  "length (particles (vis_step ev s)) = length (particles s) \<or>
   (particles s = [] \<and> length (particles (vis_step ev s)) = 45)"
proof (cases ev)
  case (Effect window mode sensitivity a clock rnd)
  then show ?thesis
    by (simp add: Let_def length_render length_init_particles)
next
  case (Frame clock rnd)
  then show ?thesis by (simp add: Let_def length_render)
next
  case (Resize window)
  then show ?thesis by simp
qed

lemma vis_run_45:
  "length (particles s) = 45 \<Longrightarrow> length (particles (vis_run evs s)) = 45"
  unfolding vis_run_def
proof (induction evs arbitrary: s)
  case Nil
  then show ?case by simp
next
  case (Cons ev evs)
  from length_vis_step [of ev s] Cons.prems
  have "length (particles (vis_step ev s)) = 45" by auto
  then show ?case using Cons.IH by simp
qed

lemma vis_run_0_45:
  "particles s = [] \<Longrightarrow>
     length (particles (vis_run evs s)) = 0 \<or> length (particles (vis_run evs s)) = 45"
proof (induction evs arbitrary: s)
  case Nil
  then show ?case by (simp add: vis_run_def)
next
  case (Cons ev evs)
  have run: "vis_run (ev # evs) s = vis_run evs (vis_step ev s)"
    by (simp add: vis_run_def)
  from length_vis_step [of ev s] Cons.prems
  consider "particles (vis_step ev s) = []" | "length (particles (vis_step ev s)) = 45"
    by auto
  then show ?case
  proof cases
    case 1
    then show ?thesis unfolding run by (rule Cons.IH)
  next
    case 2
    then show ?thesis unfolding run by (simp add: vis_run_45)
  qed
qed

text \<open>
  C7: the particle set is initialised, with 45 particles, only in mode \<^verbatim>\<open>cubic\<close> and
  only when it is empty. Through every sequence of effect runs, frames and resizes a set
  of 45 particles stays at 45, and an empty one is empty or has 45; an effect run that
  enters \<^verbatim>\<open>cubic\<close> with a non-empty set renders that set, and effect runs and frames in
  another mode leave the set as it is.
\<close>

theorem particles_initialised_once:
  "init_particles c mode rnd ps =
     (if mode = ModeCubic \<and> ps = [] then map (new_particle c rnd) [0..<45] else ps) \<and>
   length (map (new_particle c rnd) [0..<45]) = 45 \<and>
   (length (particles s) = 45 \<longrightarrow> length (particles (vis_run evs s)) = 45) \<and>
   (particles s = [] \<longrightarrow>
      length (particles (vis_run evs s)) = 0 \<or> length (particles (vis_run evs s)) = 45) \<and>
   (particles s \<noteq> [] \<longrightarrow>
      particles (vis_step (Effect c ModeCubic sensitivity a clock rnd) s) =
        snd (render c ModeCubic sensitivity clock rnd a (particles s))) \<and>
   (mode \<noteq> ModeCubic \<longrightarrow>
      particles (vis_step (Effect c mode sensitivity a clock rnd) s) = particles s) \<and>
   (v_mode s \<noteq> ModeCubic \<longrightarrow> particles (vis_step (Frame clock rnd) s) = particles s) \<and>
   particles (vis_step (Resize c) s) = particles s"
proof -
  have 1: "init_particles c mode rnd ps =
     (if mode = ModeCubic \<and> ps = [] then map (new_particle c rnd) [0..<45] else ps)"
    by (simp add: init_particles_def)
  have 2: "length (map (new_particle c rnd) [0..<45]) = 45" by simp
  have 3: "length (particles s) = 45 \<longrightarrow> length (particles (vis_run evs s)) = 45"
    by (simp add: vis_run_45)
  have 4: "particles s = [] \<longrightarrow>
      length (particles (vis_run evs s)) = 0 \<or> length (particles (vis_run evs s)) = 45"
    using vis_run_0_45 [of s evs] by blast
  have 5: "particles s \<noteq> [] \<longrightarrow>
      particles (vis_step (Effect c ModeCubic sensitivity a clock rnd) s) =
        snd (render c ModeCubic sensitivity clock rnd a (particles s))"
    by (simp add: Let_def init_particles_def)
  have 6: "mode \<noteq> ModeCubic \<longrightarrow>
      particles (vis_step (Effect c mode sensitivity a clock rnd) s) = particles s"
    by (simp add: Let_def init_particles_def render_other_mode)
  have 7: "v_mode s \<noteq> ModeCubic \<longrightarrow> particles (vis_step (Frame clock rnd) s) = particles s"
    by (simp add: Let_def render_other_mode)
  have 8: "particles (vis_step (Resize c) s) = particles s" by simp
  from 1 2 3 4 5 6 7 8 show ?thesis by blast
qed

theorem particles_initialised_once_witness:
  "particles initial_vis = [] \<and>
   length (particles (vis_run
     [Effect \<lparr> canvas_width = 800, canvas_height = 600 \<rparr> ModeCubic 1
        (Some (snapshot_of (replicate 128 255) (replicate 128 128))) (\<lambda>k. 0) (\<lambda>k. 1 / 2)]
     initial_vis)) = 45 \<and>
   particles (vis_run
     [Effect \<lparr> canvas_width = 800, canvas_height = 600 \<rparr> ModeCubic 1
        (Some (snapshot_of (replicate 128 255) (replicate 128 128))) (\<lambda>k. 0) (\<lambda>k. 1 / 2),
      Effect \<lparr> canvas_width = 800, canvas_height = 600 \<rparr> ModePure 1
        (Some (snapshot_of (replicate 128 255) (replicate 128 128))) (\<lambda>k. 0) (\<lambda>k. 1 / 2)]
     initial_vis) =
   particles (vis_run
     [Effect \<lparr> canvas_width = 800, canvas_height = 600 \<rparr> ModeCubic 1
        (Some (snapshot_of (replicate 128 255) (replicate 128 128))) (\<lambda>k. 0) (\<lambda>k. 1 / 2)]
     initial_vis) \<and>
   length (particles (vis_run
     [Effect \<lparr> canvas_width = 800, canvas_height = 600 \<rparr> ModeCubic 1
        (Some (snapshot_of (replicate 128 255) (replicate 128 128))) (\<lambda>k. 0) (\<lambda>k. 1 / 2),
      Effect \<lparr> canvas_width = 800, canvas_height = 600 \<rparr> ModePure 1
        (Some (snapshot_of (replicate 128 255) (replicate 128 128))) (\<lambda>k. 0) (\<lambda>k. 1 / 2),
      Effect \<lparr> canvas_width = 800, canvas_height = 600 \<rparr> ModeCubic 1
        (Some (snapshot_of (replicate 128 255) (replicate 128 128))) (\<lambda>k. 0) (\<lambda>k. 1 / 2)]
     initial_vis)) = 45"
proof -
  let ?c = "\<lparr> canvas_width = 800, canvas_height = 600 \<rparr>"
  let ?a = "Some (snapshot_of (replicate 128 255) (replicate 128 128))"
  let ?Ec = "Effect ?c ModeCubic 1 ?a (\<lambda>k. 0) (\<lambda>k. 1 / 2)"
  let ?Ep = "Effect ?c ModePure 1 ?a (\<lambda>k. 0) (\<lambda>k. 1 / 2)"
  let ?s1 = "vis_run [?Ec] initial_vis"
  have e: "particles initial_vis = []" by (simp add: initial_vis_def)
  have r1: "?s1 = vis_step ?Ec initial_vis" by (simp add: vis_run_def)
  have r2: "vis_run [?Ec, ?Ep] initial_vis = vis_step ?Ep ?s1" by (simp add: vis_run_def)
  have r3: "vis_run [?Ec, ?Ep, ?Ec] initial_vis = vis_run [?Ep, ?Ec] ?s1" by (simp add: vis_run_def)
  have n: "ModePure \<noteq> ModeCubic" by simp
  have l1: "length (particles ?s1) = 45"
    unfolding r1 using e by (simp add: Let_def length_render length_init_particles)
  note T = particles_initialised_once [where mode = ModePure and s = ?s1 and evs = "[?Ep, ?Ec]"
      and c = ?c and sensitivity = 1 and a = ?a and clock = "\<lambda>k. 0" and rnd = "\<lambda>k. 1 / 2"]
  from T l1 have l3: "length (particles (vis_run [?Ep, ?Ec] ?s1)) = 45" by blast
  from T n have p: "particles (vis_step ?Ep ?s1) = particles ?s1" by blast
  from e l1 p l3 show ?thesis unfolding r2 r3 by simp
qed

text \<open>
  C9: in mode \<^verbatim>\<open>cubic\<close>, two snapshots that agree on bass, treble and both sample
  arrays give the same drawing operations and the same particle set, whatever their
  volume and mid, for the same canvas, sensitivity, clock, random draws and particles.
\<close>

theorem cubic_ignores_volume_and_mid:
  assumes "bass a = bass a'" "treble a = treble a'"
    "frequencyData a = frequencyData a'" "timeData a = timeData a'"
  shows "render c ModeCubic sensitivity clock rnd (Some a) ps =
         render c ModeCubic sensitivity clock rnd (Some a') ps"
proof -
  have "render c ModeCubic sensitivity clock rnd (Some a) ps =
      render_cubic c (min 1 (bass a * sensitivity)) (min 1 (mid a * sensitivity))
        (min 1 (treble a * sensitivity)) ps"
    by (simp add: render_def Let_def)
  also have "\<dots> = render_cubic c (min 1 (bass a' * sensitivity)) (min 1 (mid a' * sensitivity))
        (min 1 (treble a' * sensitivity)) ps"
    unfolding assms by (rule render_cubic_mid)
  also have "\<dots> = render c ModeCubic sensitivity clock rnd (Some a') ps"
    by (simp add: render_def Let_def)
  finally show ?thesis .
qed

theorem cubic_ignores_volume_and_mid_witness:
  "bass \<lparr> volume = 1/5, bass = 1/2, mid = 1/10, treble = 3/10, frequencyData = [7], timeData = [128] \<rparr> =
   bass \<lparr> volume = 9/10, bass = 1/2, mid = 7/10, treble = 3/10, frequencyData = [7], timeData = [128] \<rparr> \<and>
   volume \<lparr> volume = 1/5, bass = 1/2, mid = 1/10, treble = 3/10, frequencyData = [7], timeData = [128] \<rparr> \<noteq>
   volume \<lparr> volume = 9/10, bass = 1/2, mid = 7/10, treble = 3/10, frequencyData = [7], timeData = [128] \<rparr> \<and>
   mid \<lparr> volume = 1/5, bass = 1/2, mid = 1/10, treble = 3/10, frequencyData = [7], timeData = [128] \<rparr> \<noteq>
   mid \<lparr> volume = 9/10, bass = 1/2, mid = 7/10, treble = 3/10, frequencyData = [7], timeData = [128] \<rparr> \<and>
   render \<lparr> canvas_width = 800, canvas_height = 600 \<rparr> ModeCubic 1 (\<lambda>k. 0) (\<lambda>k. 0)
     (Some \<lparr> volume = 1/5, bass = 1/2, mid = 1/10, treble = 3/10, frequencyData = [7], timeData = [128] \<rparr>)
     [\<lparr> p_x = 10, p_y = 20, p_size = 15, p_vx = 1, p_vy = - 1, p_color = Hsl 260 90 60,
        p_rotation = 0, p_rv = 0 \<rparr>] =
   render \<lparr> canvas_width = 800, canvas_height = 600 \<rparr> ModeCubic 1 (\<lambda>k. 0) (\<lambda>k. 0)
     (Some \<lparr> volume = 9/10, bass = 1/2, mid = 7/10, treble = 3/10, frequencyData = [7], timeData = [128] \<rparr>)
     [\<lparr> p_x = 10, p_y = 20, p_size = 15, p_vx = 1, p_vy = - 1, p_color = Hsl 260 90 60,
        p_rotation = 0, p_rv = 0 \<rparr>]"
proof -
  let ?a = "\<lparr> volume = 1/5, bass = 1/2, mid = 1/10, treble = 3/10, frequencyData = [7], timeData = [128] \<rparr>"
  let ?a' = "\<lparr> volume = 9/10, bass = 1/2, mid = 7/10, treble = 3/10, frequencyData = [7], timeData = [128] \<rparr>"
  have h: "bass ?a = bass ?a'" "treble ?a = treble ?a'"
    "frequencyData ?a = frequencyData ?a'" "timeData ?a = timeData ?a'"
    by simp_all
  have n: "volume ?a \<noteq> volume ?a'" "mid ?a \<noteq> mid ?a'" by simp_all
  from cubic_ignores_volume_and_mid [OF h] h(1) n show ?thesis by blast
qed

lemma cubic_particle_fst:
  "fst (cubic_particle c b m t p) =
     p\<lparr> p_x := p_x p + p_vx p * (1 + b * 8),
        p_y := p_y p + p_vy p * (1 + b * 8),
        p_rotation := p_rotation p + p_rv p * (1 + t * 5),
        p_vx := (if p_x p + p_vx p * (1 + b * 8) < 0 \<or>
                    p_x p + p_vx p * (1 + b * 8) > real (canvas_width c)
                 then - p_vx p else p_vx p),
        p_vy := (if p_y p + p_vy p * (1 + b * 8) < 0 \<or>
                    p_y p + p_vy p * (1 + b * 8) > real (canvas_height c)
                 then - p_vy p else p_vy p) \<rparr>"
  by (simp add: cubic_particle_def Let_def)

lemma render_cubic_frame:
  "render c ModeCubic sensitivity clock rnd (Some a) ps =
     render_cubic c (min 1 (bass a * sensitivity)) (min 1 (mid a * sensitivity))
       (min 1 (treble a * sensitivity)) ps"
  by (simp add: render_def Let_def)

text \<open>
  C10: a frame in mode \<^verbatim>\<open>cubic\<close> sets the position of every particle to the old
  position plus the velocity scaled by \<open>1 + bass * 8\<close>, where bass is the snapshot's bass
  times the sensitivity, capped at 1; it negates a velocity component when the new
  coordinate is below 0 or above the width (the height) of the canvas, and does not move
  the particle back. Hence a particle inside the canvas can be outside after the frame:
  at full bass a particle at \<open>x = 790\<close> with \<open>vx = 2\<close> on a canvas 800 wide ends at
  \<open>x = 808\<close>, is drawn there, and has its velocity reversed.
\<close>

theorem cubic_frame_moves_particles:
  "snd (render c ModeCubic sensitivity clock rnd (Some a) ps) =
     map (\<lambda>p. p\<lparr> p_x := p_x p + p_vx p * (1 + min 1 (bass a * sensitivity) * 8),
                 p_y := p_y p + p_vy p * (1 + min 1 (bass a * sensitivity) * 8),
                 p_rotation := p_rotation p + p_rv p * (1 + min 1 (treble a * sensitivity) * 5),
                 p_vx := (if p_x p + p_vx p * (1 + min 1 (bass a * sensitivity) * 8) < 0 \<or>
                             p_x p + p_vx p * (1 + min 1 (bass a * sensitivity) * 8)
                               > real (canvas_width c)
                          then - p_vx p else p_vx p),
                 p_vy := (if p_y p + p_vy p * (1 + min 1 (bass a * sensitivity) * 8) < 0 \<or>
                             p_y p + p_vy p * (1 + min 1 (bass a * sensitivity) * 8)
                               > real (canvas_height c)
                          then - p_vy p else p_vy p) \<rparr>) ps \<and>
   snd (render \<lparr> canvas_width = 800, canvas_height = 600 \<rparr> ModeCubic 1 clock rnd
          (Some (snapshot_of (replicate 128 255) (replicate 128 128)))
          [\<lparr> p_x = 790, p_y = 300, p_size = 15, p_vx = 2, p_vy = 0, p_color = Hsl 260 90 60,
             p_rotation = 0, p_rv = 0 \<rparr>]) =
     [\<lparr> p_x = 808, p_y = 300, p_size = 15, p_vx = - 2, p_vy = 0, p_color = Hsl 260 90 60,
        p_rotation = 0, p_rv = 0 \<rparr>] \<and>
   Translate 808 300 \<in> set (fst (render \<lparr> canvas_width = 800, canvas_height = 600 \<rparr> ModeCubic 1
          clock rnd (Some (snapshot_of (replicate 128 255) (replicate 128 128)))
          [\<lparr> p_x = 790, p_y = 300, p_size = 15, p_vx = 2, p_vy = 0, p_color = Hsl 260 90 60,
             p_rotation = 0, p_rv = 0 \<rparr>]))"
proof -
  have 1: "snd (render c ModeCubic sensitivity clock rnd (Some a) ps) =
     map (\<lambda>p. p\<lparr> p_x := p_x p + p_vx p * (1 + min 1 (bass a * sensitivity) * 8),
                 p_y := p_y p + p_vy p * (1 + min 1 (bass a * sensitivity) * 8),
                 p_rotation := p_rotation p + p_rv p * (1 + min 1 (treble a * sensitivity) * 5),
                 p_vx := (if p_x p + p_vx p * (1 + min 1 (bass a * sensitivity) * 8) < 0 \<or>
                             p_x p + p_vx p * (1 + min 1 (bass a * sensitivity) * 8)
                               > real (canvas_width c)
                          then - p_vx p else p_vx p),
                 p_vy := (if p_y p + p_vy p * (1 + min 1 (bass a * sensitivity) * 8) < 0 \<or>
                             p_y p + p_vy p * (1 + min 1 (bass a * sensitivity) * 8)
                               > real (canvas_height c)
                          then - p_vy p else p_vy p) \<rparr>) ps"
    unfolding render_cubic_frame render_cubic_def snd_conv cubic_particle_fst by (rule refl)
  let ?c = "\<lparr> canvas_width = 800, canvas_height = 600 \<rparr>"
  let ?a = "snapshot_of (replicate 128 255) (replicate 128 128)"
  let ?q = "\<lparr> p_x = 790, p_y = 300, p_size = 15, p_vx = 2, p_vy = 0, p_color = Hsl 260 90 60,
             p_rotation = 0, p_rv = 0 \<rparr>"
  have b: "bass ?a = 1" by (simp add: snapshot_replicate bands_128)
  have r: "render ?c ModeCubic 1 clock rnd (Some ?a) [?q] =
      render_cubic ?c 1 (min 1 (mid ?a)) (min 1 (treble ?a)) [?q]"
    unfolding render_cubic_frame by (simp add: b)
  have 2: "snd (render ?c ModeCubic 1 clock rnd (Some ?a) [?q]) =
     [\<lparr> p_x = 808, p_y = 300, p_size = 15, p_vx = - 2, p_vy = 0, p_color = Hsl 260 90 60,
        p_rotation = 0, p_rv = 0 \<rparr>]"
    unfolding r by (simp add: render_cubic_def cubic_particle_fst)
  have 3: "Translate 808 300 \<in> set (fst (render ?c ModeCubic 1 clock rnd (Some ?a) [?q]))"
    unfolding r by (simp add: render_cubic_def cubic_particle_def Let_def fade_def)
  from 1 2 3 show ?thesis by simp
qed

end
